theory Spec2Isabelle
  imports Complex_Main
begin

section \<open>GitHub account strength analyzer: the scoring engine\<close>

text \<open>
  A shallow embedding of the scoring functions of \<^verbatim>\<open>GitHub-Analyzer/github_analyzer.py\<close>:
  \<^verbatim>\<open>analyze_profile_completeness\<close>, \<^verbatim>\<open>analyze_repository_quality\<close>,
  \<^verbatim>\<open>analyze_activity_consistency\<close> and the part of \<^verbatim>\<open>main\<close> that follows the fetch.

  Python integers are \<open>int\<close>. The JSON objects of the GitHub API are records whose fields
  carry the keys the code reads; a field is \<open>None\<close> when the key is absent or \<^verbatim>\<open>null\<close>.
\<close>

subsection \<open>Detail strings\<close>

text \<open>
  Every detail is an f-string of the shape \<^verbatim>\<open>{colour}{glyph} {text}{ENDC}\<close> with at most one
  interpolated value. A detail is kept as its colour, its leading glyph, the text of the
  template (the interpolation written \<^verbatim>\<open>{}\<close>, or \<^verbatim>\<open>{:.1f}\<close> for the one-decimal format) and
  the interpolated value, not yet rendered.
\<close>

datatype colour = HEADER | OKBLUE | OKCYAN | OKGREEN | WARNING | FAIL

datatype glyph = Tick | Cross | Ring | Triangle | Bullet | Party | ThumbsUp | Chart

datatype arg = NoArg | IntArg int | FloatArg rat

datatype detail = Detail colour glyph string arg

record result =
  score :: int
  details :: "detail list"

subsection \<open>Profile completeness\<close>

record user =
  name :: "string option"
  bio :: "string option"
  location :: "string option"
  company :: "string option"
  email :: "string option"
  blog :: "string option"
  twitter_username :: "string option"
  followers :: "int option"

text \<open>Python truth of \<^verbatim>\<open>d.get(key)\<close> for a string field: neither \<^verbatim>\<open>None\<close> nor empty.\<close>

definition truthy :: "string option \<Rightarrow> bool" where
  "truthy v = (case v of None \<Rightarrow> False | Some s \<Rightarrow> s \<noteq> [])"

text \<open>\<^verbatim>\<open>d.get(key, 0)\<close> for an integer field.\<close>

definition get0 :: "int option \<Rightarrow> int" where
  "get0 v = (case v of None \<Rightarrow> 0 | Some n \<Rightarrow> n)"

definition analyze_profile_completeness :: "user \<Rightarrow> result" where
  "analyze_profile_completeness user_data =
    (let score = 0; details = [];
         (score, details) =
           (if truthy (name user_data)
            then (score + 10, details @ [Detail OKGREEN Tick ''Name provided'' NoArg])
            else (score, details @ [Detail WARNING Cross ''Name missing'' NoArg]));
         (score, details) =
           (if truthy (bio user_data)
            then (score + 10, details @ [Detail OKGREEN Tick ''Bio provided'' NoArg])
            else (score, details @ [Detail WARNING Cross ''Bio missing'' NoArg]));
         (score, details) =
           (if truthy (location user_data)
            then (score + 10, details @ [Detail OKGREEN Tick ''Location provided'' NoArg])
            else (score, details @ [Detail WARNING Cross ''Location missing'' NoArg]));
         (score, details) =
           (if truthy (company user_data)
            then (score + 10, details @ [Detail OKGREEN Tick ''Company provided'' NoArg])
            else (score, details @ [Detail WARNING Cross ''Company missing'' NoArg]));
         (score, details) =
           (if truthy (email user_data)
            then (score + 15, details @ [Detail OKGREEN Tick ''Email provided'' NoArg])
            else (score, details @ [Detail WARNING Cross ''Email missing'' NoArg]));
         (score, details) =
           (if truthy (blog user_data)
            then (score + 15, details @ [Detail OKGREEN Tick ''Website/blog provided'' NoArg])
            else (score, details @ [Detail WARNING Cross ''Website/blog missing'' NoArg]));
         (score, details) =
           (if truthy (twitter_username user_data)
            then (score + 15, details @ [Detail OKGREEN Tick ''Twitter linked'' NoArg])
            else (score, details @ [Detail WARNING Cross ''Twitter not linked'' NoArg]));
         (score, details) =
           (if get0 (followers user_data) > 0
            then (score + 15,
                  details @ [Detail OKGREEN Tick ''Has followers ({})''
                                    (IntArg (get0 (followers user_data)))])
            else (score, details @ [Detail WARNING Cross ''No followers'' NoArg]))
     in \<lparr>score = score, details = details\<rparr>)"

text \<open>The point table of the specification (section 4.1), one summand per row.\<close>

definition profile_points :: "user \<Rightarrow> int" where
  "profile_points u =
     (if truthy (name u) then 10 else 0) + (if truthy (bio u) then 10 else 0)
   + (if truthy (location u) then 10 else 0) + (if truthy (company u) then 10 else 0)
   + (if truthy (email u) then 15 else 0) + (if truthy (blog u) then 15 else 0)
   + (if truthy (twitter_username u) then 15 else 0)
   + (if get0 (followers u) > 0 then 15 else 0)"

subsection \<open>Binary floating point\<close>

text \<open>
  Python's \<^verbatim>\<open>float\<close> is IEEE 754 binary64. A float is modelled by the rational number it
  denotes, and every arithmetic operation rounds its exact result to the nearest number with
  a 53-bit significand, ties to the even significand. The exponent range is not modelled:
  the quotients, percentages and products below stay far inside the normal range (a
  collection would need more than \<open>2 ^ 1000\<close> records to leave it).
\<close>

type_synonym float = rat

text \<open>Nearest integer, ties to even.\<close>

definition rne :: "rat \<Rightarrow> int" where
  "rne x = (let f = \<lfloor>x\<rfloor>; r = x - of_int f
            in if r < 1 / 2 then f else if 1 / 2 < r then f + 1
               else if even f then f else f + 1)"

text \<open>The binary exponent of a positive rational: \<open>2 powi ilog2 x \<le> x < 2 powi (ilog2 x + 1)\<close>.\<close>

function ilog2 :: "rat \<Rightarrow> int" where
  "ilog2 x = (if x \<le> 0 then 0
              else if x < 1 then ilog2 (2 * x) - 1
              else if 2 \<le> x then ilog2 (x / 2) + 1
              else 0)"
  by pat_completeness auto
termination
proof (relation "measure (\<lambda>x. 2 * nat \<lceil>1 / x\<rceil> + nat \<lfloor>x\<rfloor>)", goal_cases)
  case 1
  show ?case by simp
next
  case (2 x)
  then have x: "0 < x" "x < 1" by auto
  have a: "\<lfloor>x\<rfloor> = 0" using x by (simp add: floor_eq_iff)
  have b: "nat \<lfloor>2 * x\<rfloor> \<le> 1" using x by (simp add: floor_le_iff nat_le_iff)
  have "1 < 1 / x" using x by simp
  then have c: "2 \<le> \<lceil>1 / x\<rceil>" by (simp add: le_ceiling_iff)
  have "1 / (2 * x) \<le> of_int (\<lceil>1 / x\<rceil> - 1)"
  proof -
    have "1 / (2 * x) = (1 / x) / 2" by simp
    also have "\<dots> \<le> of_int \<lceil>1 / x\<rceil> / 2" by (simp add: divide_right_mono)
    also have "\<dots> \<le> of_int (\<lceil>1 / x\<rceil> - 1)" using c by simp
    finally show ?thesis .
  qed
  then have "\<lceil>1 / (2 * x)\<rceil> \<le> \<lceil>1 / x\<rceil> - 1" by (rule ceiling_le)
  with c have "nat \<lceil>1 / (2 * x)\<rceil> + 1 \<le> nat \<lceil>1 / x\<rceil>" by linarith
  with a b show ?case unfolding in_measure by linarith
next
  case (3 x)
  then have x: "2 \<le> x" by auto
  have a: "\<lceil>1 / x\<rceil> = 1" using x by (simp add: ceiling_eq_iff)
  have a': "\<lceil>1 / (x / 2)\<rceil> = 1" using x by (simp add: ceiling_eq_iff)
  have c: "2 \<le> \<lfloor>x\<rfloor>" using x by (simp add: le_floor_iff)
  have "x / 2 < of_int \<lfloor>x\<rfloor>"
  proof -
    have "x / 2 \<le> x - 1" using x by simp
    also have "\<dots> < of_int \<lfloor>x\<rfloor>" by linarith
    finally show ?thesis .
  qed
  then have "\<lfloor>x / 2\<rfloor> < \<lfloor>x\<rfloor>" by (simp add: floor_less_iff)
  then show ?case using a a' c by simp
qed

declare ilog2.simps [simp del]

definition round_double :: "rat \<Rightarrow> float" where
  "round_double x =
     (if x = 0 then 0
      else let u = 2 powi (ilog2 \<bar>x\<bar> - 52)
           in sgn x * of_int (rne (\<bar>x\<bar> / u)) * u)"

text \<open>
  The operations the scorers use: a decimal literal (\<^verbatim>\<open>0.5\<close>, \<^verbatim>\<open>0.3\<close>), the conversion of an
  \<^verbatim>\<open>int\<close> operand, true division of two \<^verbatim>\<open>int\<close>s (correctly rounded) and the product of two
  floats. Comparing an \<^verbatim>\<open>int\<close> with a float is exact in Python.
\<close>

definition float_lit :: "rat \<Rightarrow> float" where
  "float_lit q = round_double q"

definition float_of_int :: "int \<Rightarrow> float" where
  "float_of_int n = round_double (of_int n)"

definition int_truediv :: "int \<Rightarrow> int \<Rightarrow> float" where
  "int_truediv a b = round_double (of_int a / of_int b)"

definition float_mul :: "float \<Rightarrow> float \<Rightarrow> float" where
  "float_mul x y = round_double (x * y)"

subsection \<open>Time\<close>

text \<open>
  A naive \<^verbatim>\<open>datetime\<close> is the number of microseconds since a fixed origin, a \<^verbatim>\<open>timedelta\<close> a
  number of microseconds. The timestamp fields of a record hold the value of
  \<^verbatim>\<open>datetime.strptime(field, '%Y-%m-%dT%H:%M:%SZ')\<close>, or \<open>None\<close> where that expression raises
  (key absent, not a string, or not in the format).

  \<^verbatim>\<open>datetime.now()\<close> reads the system clock at every call. A clock gives the value of the
  \<open>k\<close>-th reading of a run; the functions that read it take the number of readings made
  so far and return the new number.
\<close>

type_synonym clock = "nat \<Rightarrow> int"

definition timedelta_days :: "int \<Rightarrow> int" where
  "timedelta_days d = d * 86400000000"

text \<open>\<^verbatim>\<open>timedelta.days\<close>: timedeltas are normalised with \<open>0 \<le> seconds < 86400\<close>, so it is the floor.\<close>

definition days_of :: "int \<Rightarrow> int" where
  "days_of delta = delta div 86400000000"

datatype error = BadTimestamp

subsection \<open>Repository quality\<close>

record repo =
  description :: "string option"
  language :: "string option"
  stargazers_count :: "int option"
  forks_count :: "int option"
  updated_at :: "int option"

text \<open>Repository count (source lines 144-154).\<close>

definition repository_count_block :: "int \<Rightarrow> int \<times> detail" where
  "repository_count_block repo_count =
     (if repo_count \<ge> 10
      then (20, Detail OKGREEN Tick ''Good repository count ({})'' (IntArg repo_count))
      else if repo_count \<ge> 5
      then (15, Detail OKCYAN Ring ''Moderate repository count ({})'' (IntArg repo_count))
      else (10, Detail WARNING Triangle ''Few repositories ({})'' (IntArg repo_count)))"

text \<open>Documentation (source lines 156-168).\<close>

definition documented_repos_of :: "repo list \<Rightarrow> int" where
  "documented_repos_of repos_data =
     sum_list (map (\<lambda>repo. 1) (filter (\<lambda>repo. truthy (description repo)) repos_data))"

definition documentation_block :: "int \<Rightarrow> int \<Rightarrow> int \<times> detail" where
  "documentation_block documented_repos repo_count =
     (let doc_percentage = float_mul (int_truediv documented_repos repo_count) 100
      in if doc_percentage \<ge> 80
         then (25, Detail OKGREEN Tick ''Excellent documentation ({:.1f}%)'' (FloatArg doc_percentage))
         else if doc_percentage \<ge> 60
         then (20, Detail OKCYAN Ring ''Good documentation ({:.1f}%)'' (FloatArg doc_percentage))
         else (10, Detail WARNING Triangle ''Poor documentation ({:.1f}%)'' (FloatArg doc_percentage)))"

text \<open>Language diversity (source lines 170-185): the set of the truthy \<^verbatim>\<open>language\<close> values.\<close>

fun languages_of :: "repo list \<Rightarrow> string set \<Rightarrow> string set" where
  "languages_of [] languages = languages"
| "languages_of (repo # rest) languages =
     languages_of rest
       (if truthy (language repo) then insert (the (language repo)) languages else languages)"

definition language_block :: "int \<Rightarrow> int \<times> detail" where
  "language_block lang_count =
     (if lang_count \<ge> 5
      then (20, Detail OKGREEN Tick ''Great language diversity ({} languages)'' (IntArg lang_count))
      else if lang_count \<ge> 3
      then (15, Detail OKCYAN Ring ''Good language diversity ({} languages)'' (IntArg lang_count))
      else (10, Detail WARNING Triangle ''Limited language diversity ({} languages)''
                  (IntArg lang_count)))"

text \<open>Stars and forks (source lines 187-199).\<close>

definition stars_block :: "int \<Rightarrow> int \<times> detail" where
  "stars_block total_stars =
     (if total_stars \<ge> 50
      then (15, Detail OKGREEN Tick ''Great community engagement ({} stars)'' (IntArg total_stars))
      else if total_stars \<ge> 10
      then (10, Detail OKCYAN Ring ''Good community engagement ({} stars)'' (IntArg total_stars))
      else (5, Detail WARNING Triangle ''Limited community engagement ({} stars)''
                 (IntArg total_stars)))"

text \<open>
  Recent activity (source lines 201-214). The generator is consumed by \<^verbatim>\<open>sum\<close> record by
  record: the timestamp is parsed, then the clock is read, then the two are compared.
\<close>

fun recent_repos_of :: "clock \<Rightarrow> nat \<Rightarrow> int \<Rightarrow> repo list \<Rightarrow> error + int \<times> nat" where
  "recent_repos_of clk k acc [] = Inr (acc, k)"
| "recent_repos_of clk k acc (repo # rest) =
     (case updated_at repo of
        None \<Rightarrow> Inl BadTimestamp
      | Some t \<Rightarrow>
          recent_repos_of clk (Suc k)
            (if t > clk k - timedelta_days 90 then acc + 1 else acc) rest)"

definition maintenance_block :: "int \<Rightarrow> int \<Rightarrow> int \<times> detail" where
  "maintenance_block recent_repos repo_count =
     (if of_int recent_repos \<ge> float_mul (float_of_int repo_count) (float_lit (5 / 10))
      then (15, Detail OKGREEN Tick ''Active maintenance ({} recently updated)'' (IntArg recent_repos))
      else if of_int recent_repos \<ge> float_mul (float_of_int repo_count) (float_lit (3 / 10))
      then (10, Detail OKCYAN Ring ''Moderate maintenance ({} recently updated)''
                  (IntArg recent_repos))
      else (5, Detail WARNING Triangle ''Limited maintenance ({} recently updated)''
                 (IntArg recent_repos)))"

definition analyze_repository_quality :: "clock \<Rightarrow> nat \<Rightarrow> repo list \<Rightarrow> error + result \<times> nat" where
  "analyze_repository_quality clk k repos_data =
     (if repos_data = []
      then Inr (\<lparr>score = 0, details = [Detail FAIL Cross ''No repositories'' NoArg]\<rparr>, k)
      else
        let score = 0; details = [];
            repo_count = int (length repos_data);
            (points, detail) = repository_count_block repo_count;
            score = score + points; details = details @ [detail];
            documented_repos = documented_repos_of repos_data;
            (points, detail) = documentation_block documented_repos repo_count;
            score = score + points; details = details @ [detail];
            languages = languages_of repos_data {};
            lang_count = int (card languages);
            (points, detail) = language_block lang_count;
            score = score + points; details = details @ [detail];
            total_stars = sum_list (map (\<lambda>repo. get0 (stargazers_count repo)) repos_data);
            total_forks = sum_list (map (\<lambda>repo. get0 (forks_count repo)) repos_data);
            (points, detail) = stars_block total_stars;
            score = score + points; details = details @ [detail]
        in case recent_repos_of clk k 0 repos_data of
             Inl e \<Rightarrow> Inl e
           | Inr (recent_repos, k') \<Rightarrow>
               let (points, detail) = maintenance_block recent_repos repo_count;
                   score = score + points; details = details @ [detail]
               in Inr (\<lparr>score = score, details = details\<rparr>, k'))"

subsection \<open>Activity consistency\<close>

record event =
  type :: "string option"
  created_at :: "int option"

definition analyze_activity_consistency :: "clock \<Rightarrow> nat \<Rightarrow> event list \<Rightarrow> error + result \<times> nat" where
  "analyze_activity_consistency clk k events_data =
     (if events_data = []
      then Inr (\<lparr>score = 0, details = [Detail FAIL Cross ''No recent activity'' NoArg]\<rparr>, k)
      else
        let score = 0; details = [];
            recent_events = int (length events_data);
            (score, details) =
              (if recent_events \<ge> 50
               then (score + 50, details @ [Detail OKGREEN Tick ''Very active ({} recent events)''
                                               (IntArg recent_events)])
               else if recent_events \<ge> 20
               then (score + 40, details @ [Detail OKCYAN Ring ''Active ({} recent events)''
                                               (IntArg recent_events)])
               else (score + 25, details @ [Detail WARNING Triangle
                                               ''Limited activity ({} recent events)''
                                               (IntArg recent_events)]));
            event_types = set (map (\<lambda>event. case type event of None \<Rightarrow> [] | Some s \<Rightarrow> s)
                                   events_data);
            type_count = int (card event_types);
            (score, details) =
              (if type_count \<ge> 5
               then (score + 30, details @ [Detail OKGREEN Tick ''Diverse activity types ({} types)''
                                               (IntArg type_count)])
               else if type_count \<ge> 3
               then (score + 20, details @ [Detail OKCYAN Ring ''Good activity diversity ({} types)''
                                               (IntArg type_count)])
               else (score + 15, details @ [Detail WARNING Triangle
                                               ''Limited activity diversity ({} types)''
                                               (IntArg type_count)]))
        in case events_data of
             [] \<Rightarrow> Inr (\<lparr>score = score, details = details\<rparr>, k)
           | first # _ \<Rightarrow>
               (case created_at first of
                  None \<Rightarrow> Inl BadTimestamp
                | Some latest_event \<Rightarrow>
                    let days_since_last = days_of (clk k - latest_event);
                        (score, details) =
                          (if days_since_last \<le> 7
                           then (score + 20, details @ [Detail OKGREEN Tick
                                    ''Very recent activity ({} days ago)'' (IntArg days_since_last)])
                           else if days_since_last \<le> 30
                           then (score + 15, details @ [Detail OKCYAN Ring
                                    ''Recent activity ({} days ago)'' (IntArg days_since_last)])
                           else (score + 10, details @ [Detail WARNING Triangle
                                    ''Activity not recent ({} days ago)'' (IntArg days_since_last)]))
                    in Inr (\<lparr>score = score, details = details\<rparr>, Suc k)))"

subsection \<open>The main procedure, after the fetch\<close>

text \<open>
  What \<^verbatim>\<open>main\<close> prints, line by line. \<^verbatim>\<open>display_strength_meter\<close> is kept as the call it is
  (score, maximum, title): the rendering of the bar is terminal output, outside the scoring.
\<close>

datatype line =
    Rule
  | Title string
  | Meter int int string
  | Indented detail

definition print :: "line \<Rightarrow> line list \<Rightarrow> line list" where
  "print l out = out @ [l]"

fun print_details :: "detail list \<Rightarrow> line list \<Rightarrow> line list" where
  "print_details [] out = out"
| "print_details (detail # rest) out = print_details rest (print (Indented detail) out)"

record github_data =
  user :: user
  repos :: "repo list"
  events :: "event list"

text \<open>Recommendations (source lines 343-358).\<close>

definition print_recommendations :: "int \<Rightarrow> int \<Rightarrow> int \<Rightarrow> int \<Rightarrow> line list \<Rightarrow> line list" where
  "print_recommendations profile_score repo_score activity_score total_score out =
     (let out = print (Title ''RECOMMENDATIONS:'') out;
          out = (if profile_score < 80
                 then print (Indented (Detail WARNING Bullet
                        ''Complete your profile with missing information'' NoArg)) out
                 else out);
          out = (if repo_score < 80
                 then print (Indented (Detail WARNING Bullet
                        ''Diversify your programming languages'' NoArg))
                       (print (Indented (Detail WARNING Bullet
                        ''Add descriptions to your repositories'' NoArg)) out)
                 else out);
          out = (if activity_score < 80
                 then print (Indented (Detail WARNING Bullet
                        ''Increase your GitHub activity and consistency'' NoArg)) out
                 else out)
      in if total_score \<ge> 240
         then print (Indented (Detail OKGREEN Party
                ''Excellent GitHub presence! Keep up the great work!'' NoArg)) out
         else if total_score \<ge> 180
         then print (Indented (Detail OKCYAN ThumbsUp
                ''Good GitHub presence with room for improvement'' NoArg)) out
         else print (Indented (Detail WARNING Chart
                ''Focus on building a stronger GitHub presence'' NoArg)) out)"

text \<open>
  Source lines 312-360. An exception of a scorer leaves \<^verbatim>\<open>main\<close> before anything of the
  report is printed.
\<close>

definition main_after_fetch :: "clock \<Rightarrow> github_data \<Rightarrow> error + line list" where
  "main_after_fetch clk data =
     (let profile_analysis = analyze_profile_completeness (user data)
      in case analyze_repository_quality clk 0 (repos data) of
           Inl e \<Rightarrow> Inl e
         | Inr (repo_analysis, k) \<Rightarrow>
             (case analyze_activity_consistency clk k (events data) of
                Inl e \<Rightarrow> Inl e
              | Inr (activity_analysis, k') \<Rightarrow>
                  let total_score = score profile_analysis + score repo_analysis
                                    + score activity_analysis;
                      max_total = 300;
                      out = print Rule [];
                      out = print (Title ''GITHUB STRENGTH ANALYSIS'') out;
                      out = print Rule out;
                      out = print (Meter total_score max_total ''OVERALL GITHUB STRENGTH'') out;
                      out = print (Meter (score profile_analysis) 100 ''PROFILE COMPLETENESS'') out;
                      out = print_details (details profile_analysis) out;
                      out = print (Meter (score repo_analysis) 100 ''REPOSITORY QUALITY'') out;
                      out = print_details (details repo_analysis) out;
                      out = print (Meter (score activity_analysis) 100 ''ACTIVITY CONSISTENCY'') out;
                      out = print_details (details activity_analysis) out;
                      out = print_recommendations (score profile_analysis) (score repo_analysis)
                              (score activity_analysis) total_score out
                  in Inr (print Rule out)))"

subsection \<open>The tiers of the specification\<close>

text \<open>
  The specification (section 4.4) names three tiers and classifies a total by the first
  matching rule. The code has no tier value: it prints one of three closing remarks.
  \<open>tier_of\<close> follows the specification's words; \<open>tier_line\<close> names the remark that stands
  for each tier in the source.
\<close>

datatype tier = Excellent | Good | NeedsImprovement

definition tier_of :: "int \<Rightarrow> tier" where
  "tier_of total_score =
     (if total_score \<ge> 240 then Excellent
      else if total_score \<ge> 180 then Good
      else NeedsImprovement)"

definition tier_line :: "tier \<Rightarrow> line" where
  "tier_line t =
     (case t of
        Excellent \<Rightarrow> Indented (Detail OKGREEN Party
                       ''Excellent GitHub presence! Keep up the great work!'' NoArg)
      | Good \<Rightarrow> Indented (Detail OKCYAN ThumbsUp
                  ''Good GitHub presence with room for improvement'' NoArg)
      | NeedsImprovement \<Rightarrow> Indented (Detail WARNING Chart
                              ''Focus on building a stronger GitHub presence'' NoArg))"

subsection \<open>The measured quantities of a repository collection\<close>

text \<open>
  The language count and the star total as \<open>analyze_repository_quality\<close> computes them, and,
  in the specification's words, the number of records updated within the 90 days before
  the clock reading made for them (the \<open>i\<close>-th record meets the reading \<open>k + i\<close>). A
  collection is parseable when every \<^verbatim>\<open>updated_at\<close> parses.
\<close>

definition lang_count_of :: "repo list \<Rightarrow> int" where
  "lang_count_of repos_data = int (card (languages_of repos_data {}))"

definition total_stars_of :: "repo list \<Rightarrow> int" where
  "total_stars_of repos_data = sum_list (map (\<lambda>repo. get0 (stargazers_count repo)) repos_data)"

definition recent_count :: "clock \<Rightarrow> nat \<Rightarrow> repo list \<Rightarrow> int" where
  "recent_count clk k repos_data =
     int (length (filter (\<lambda>(i, repo). case updated_at repo of
                                          None \<Rightarrow> False
                                        | Some t \<Rightarrow> clk (k + i) - timedelta_days 90 < t)
                         (enumerate 0 repos_data)))"

definition parseable :: "repo list \<Rightarrow> bool" where
  "parseable repos_data = list_all (\<lambda>repo. updated_at repo \<noteq> None) repos_data"

subsection \<open>The sub-scores of the specification\<close>

text \<open>
  Section 4.2 of the specification, in its own words and in exact arithmetic: the count
  tier, the documentation ratio \<open>documented / total * 100\<close>, the number of distinct
  non-empty languages, the star total and the fraction of recently updated repositories,
  each with its thresholds.
\<close>

definition spec_count_tier :: "int \<Rightarrow> int" where
  "spec_count_tier n = (if n \<ge> 10 then 20 else if n \<ge> 5 then 15 else 10)"

definition spec_documented_count :: "repo list \<Rightarrow> int" where
  "spec_documented_count repos_data =
     int (length (filter (\<lambda>repo. case description repo of None \<Rightarrow> False | Some s \<Rightarrow> s \<noteq> [])
                         repos_data))"

definition spec_documentation_tier :: "int \<Rightarrow> int \<Rightarrow> int" where
  "spec_documentation_tier documented n =
     (let ratio = (of_int documented / of_int n * 100 :: rat)
      in if ratio \<ge> 80 then 25 else if ratio \<ge> 60 then 20 else 10)"

definition spec_language_count :: "repo list \<Rightarrow> int" where
  "spec_language_count repos_data =
     int (card (set (List.map_filter
                       (\<lambda>repo. case language repo of
                                  None \<Rightarrow> None
                                | Some l \<Rightarrow> if l \<noteq> [] then Some l else None)
                       repos_data)))"

definition spec_language_tier :: "int \<Rightarrow> int" where
  "spec_language_tier n = (if n \<ge> 5 then 20 else if n \<ge> 3 then 15 else 10)"

definition spec_popularity_tier :: "int \<Rightarrow> int" where
  "spec_popularity_tier stars = (if stars \<ge> 50 then 15 else if stars \<ge> 10 then 10 else 5)"

definition spec_recency_tier :: "int \<Rightarrow> int \<Rightarrow> int" where
  "spec_recency_tier recent n =
     (let fraction = (of_int recent / of_int n :: rat)
      in if fraction \<ge> 5 / 10 then 15 else if fraction \<ge> 3 / 10 then 10 else 5)"

subsection \<open>The remarks of the specification\<close>

text \<open>
  In the specification's words (section 4.4): every category whose score is below 80
  contributes its fixed remarks, in the order profile, repository, activity.
\<close>

definition category_remarks :: "int \<Rightarrow> int \<Rightarrow> int \<Rightarrow> line list" where
  "category_remarks profile_score repo_score activity_score =
     (if profile_score < 80
      then [Indented (Detail WARNING Bullet ''Complete your profile with missing information'' NoArg)]
      else [])
     @ (if repo_score < 80
        then [Indented (Detail WARNING Bullet ''Add descriptions to your repositories'' NoArg),
              Indented (Detail WARNING Bullet ''Diversify your programming languages'' NoArg)]
        else [])
     @ (if activity_score < 80
        then [Indented (Detail WARNING Bullet ''Increase your GitHub activity and consistency'' NoArg)]
        else [])"

subsection \<open>Repository collections that differ in their fork counts only\<close>

definition erase_forks :: "repo list \<Rightarrow> repo list" where
  "erase_forks repos_data = map (\<lambda>repo. repo\<lparr>forks_count := None\<rparr>) repos_data"

subsection \<open>Sample inputs\<close>

text \<open>
  A clock that advances by one microsecond at every reading, an account with one
  repository and one event three days old, and two collections that differ in their fork
  counts.
\<close>

definition sample_clock :: clock where
  "sample_clock k = 8640000000000000 + int k"

definition sample_repo :: repo where
  "sample_repo = \<lparr>description = Some ''A parser'', language = Some ''Python'',
                  stargazers_count = Some 12, forks_count = Some 3,
                  updated_at = Some 8639000000000000\<rparr>"

definition sample_event :: event where
  "sample_event = \<lparr>type = Some ''PushEvent'', created_at = Some 8639740800000000\<rparr>"

definition sample_user :: user where
  "sample_user = \<lparr>name = Some ''Ada'', bio = None, location = None, company = None,
                  email = None, blog = Some [], twitter_username = None, followers = Some 5\<rparr>"

definition sample_data :: github_data where
  "sample_data = \<lparr>user = sample_user, repos = [sample_repo], events = [sample_event]\<rparr>"

definition sample_repos_a :: "repo list" where
  "sample_repos_a = [sample_repo, sample_repo\<lparr>language := Some ''Go'', forks_count := Some 40\<rparr>]"

definition sample_repos_b :: "repo list" where
  "sample_repos_b = [sample_repo\<lparr>forks_count := None\<rparr>,
                     sample_repo\<lparr>language := Some ''Go'', forks_count := Some 7\<rparr>]"

text \<open>
  The scenario of the specification: 12 repositories, 10 with a description, 4 distinct
  languages, 60 stars in total, 7 updated within the last 90 days.
\<close>

definition scenario_repo :: "string \<Rightarrow> string \<Rightarrow> int \<Rightarrow> repo" where
  "scenario_repo d l t = \<lparr>description = Some d, language = Some l, stargazers_count = Some 5,
                           forks_count = None, updated_at = Some t\<rparr>"

definition scenario_repos :: "repo list" where
  "scenario_repos =
     [scenario_repo ''a'' ''Python'' 8639000000000000,
      scenario_repo ''b'' ''Python'' 8639000000000000,
      scenario_repo ''c'' ''Go'' 8639000000000000,
      scenario_repo ''d'' ''Go'' 8639000000000000,
      scenario_repo ''e'' ''Rust'' 8639000000000000,
      scenario_repo ''f'' ''Rust'' 8639000000000000,
      scenario_repo ''g'' ''C'' 8639000000000000,
      scenario_repo ''h'' ''C'' 100000000000000,
      scenario_repo ''i'' [] 100000000000000,
      scenario_repo ''j'' [] 100000000000000,
      scenario_repo [] ''Go'' 100000000000000,
      scenario_repo [] ''Go'' 100000000000000]"

text \<open>
  Clocks that agree with the sample clock on its first reading: one that stands still (the
  value a single captured \<^verbatim>\<open>now\<close> would give to every check) and one that jumps after the
  second reading. The event of \<open>skew_data\<close> is eight days old at the second reading of the
  sample clock and one microsecond younger at its first.
\<close>

definition frozen_clock :: clock where
  "frozen_clock k = 8640000000000000"

definition late_clock :: clock where
  "late_clock k = (if k \<le> 1 then 8640000000000000 + int k else 0)"

definition skew_event :: event where
  "skew_event = \<lparr>type = Some ''PushEvent'', created_at = Some 8639308800000001\<rparr>"

definition skew_data :: github_data where
  "skew_data = \<lparr>user = sample_user, repos = [sample_repo], events = [skew_event]\<rparr>"

section \<open>Properties\<close>

subsection \<open>Rounding to binary64\<close>

text \<open>
  Rounding is monotone and leaves every number with a significand below \<open>2 ^ 53\<close> as it is.
  From these two facts the comparisons of the scorers with 80, 60, \<^verbatim>\<open>repo_count * 0.5\<close> and
  \<^verbatim>\<open>repo_count * 0.3\<close> decide the same as exact arithmetic, for every collection of at most
  \<open>10 ^ 15\<close> records.
\<close>

lemma rne_of_int: "rne (of_int n) = n"
  by (simp add: rne_def)

lemma rne_cases: "rne x = \<lfloor>x\<rfloor> \<or> rne x = \<lfloor>x\<rfloor> + 1"
  by (simp add: rne_def Let_def)

lemma rne_mono:
  assumes "x \<le> y"
  shows "rne x \<le> rne y"
proof (cases "\<lfloor>x\<rfloor> = \<lfloor>y\<rfloor>")
  case True
  have "x - of_int \<lfloor>x\<rfloor> \<le> y - of_int \<lfloor>y\<rfloor>" using assms True by simp
  then show ?thesis using True by (auto simp add: rne_def Let_def)
next
  case False
  have "\<lfloor>x\<rfloor> \<le> \<lfloor>y\<rfloor>" using assms by (rule floor_mono)
  with False have "\<lfloor>x\<rfloor> + 1 \<le> \<lfloor>y\<rfloor>" by simp
  moreover have "rne x \<le> \<lfloor>x\<rfloor> + 1" using rne_cases [of x] by auto
  moreover have "\<lfloor>y\<rfloor> \<le> rne y" using rne_cases [of y] by auto
  ultimately show ?thesis by linarith
qed

lemma rne_ge: "of_int n \<le> x \<Longrightarrow> n \<le> rne x"
  using rne_mono [of "of_int n" x] by (simp add: rne_of_int)

lemma rne_le: "x \<le> of_int n \<Longrightarrow> rne x \<le> n"
  using rne_mono [of x "of_int n"] by (simp add: rne_of_int)

lemma two_powi_pos: "0 < (2::rat) powi e"
  by (simp add: zero_less_power_int)

lemma two_powi_Suc: "(2::rat) powi (e + 1) = 2 * 2 powi e"
  by (simp add: power_int_add)

lemma two_powi_pred: "(2::rat) powi (e - 1) = 2 powi e / 2"
  by (simp add: power_int_diff)

lemma ilog2_bounds: "0 < x \<Longrightarrow> 2 powi ilog2 x \<le> x \<and> x < 2 powi (ilog2 x + 1)"
proof (induction x rule: ilog2.induct)
  case (1 x)
  show ?case
  proof (cases "x < 1")
    case True
    define e where "e = ilog2 (2 * x)"
    from "1.prems" True have eq: "ilog2 x = e - 1" unfolding e_def by (subst ilog2.simps) simp
    have "2 powi e \<le> 2 * x \<and> 2 * x < 2 powi (e + 1)"
      unfolding e_def using "1.IH"(1) "1.prems" True by simp
    moreover have "(2::rat) powi (e + 1) = 2 * 2 powi e" by (rule two_powi_Suc)
    moreover have "(2::rat) powi (e - 1) = 2 powi e / 2" by (rule two_powi_pred)
    ultimately show ?thesis unfolding eq by simp
  next
    case False
    show ?thesis
    proof (cases "2 \<le> x")
      case True
      define e where "e = ilog2 (x / 2)"
      from "1.prems" False True have eq: "ilog2 x = e + 1"
        unfolding e_def by (subst ilog2.simps) simp
      have "2 powi e \<le> x / 2 \<and> x / 2 < 2 powi (e + 1)"
        unfolding e_def using "1.IH"(2) "1.prems" False True by simp
      moreover have "(2::rat) powi (e + 1) = 2 * 2 powi e" by (rule two_powi_Suc)
      moreover have "(2::rat) powi (e + 1 + 1) = 2 * 2 powi (e + 1)" by (rule two_powi_Suc)
      ultimately show ?thesis unfolding eq by linarith
    next
      case b: False
      with "1.prems" False have e: "ilog2 x = 0" by (subst ilog2.simps) simp
      show ?thesis using False b by (simp add: e)
    qed
  qed
qed

lemma two_powi_less_cancel: "(2::rat) powi a < 2 powi b \<Longrightarrow> a < b"
  by (rule ccontr) (simp add: not_less power_int_increasing leD)

lemma ilog2_unique:
  assumes "2 powi e \<le> x" and "x < 2 powi (e + 1)"
  shows "ilog2 x = e"
proof -
  have x: "0 < x" using assms(1) two_powi_pos [of e] by linarith
  note b = ilog2_bounds [OF x]
  have "(2::rat) powi e < 2 powi (ilog2 x + 1)" using assms(1) b by linarith
  then have "e < ilog2 x + 1" by (rule two_powi_less_cancel)
  moreover have "(2::rat) powi ilog2 x < 2 powi (e + 1)" using assms(2) b by linarith
  then have "ilog2 x < e + 1" by (rule two_powi_less_cancel)
  ultimately show ?thesis by simp
qed

lemma round_double_pos:
  assumes "0 < x"
  shows "round_double x = of_int (rne (x / 2 powi (ilog2 x - 52))) * 2 powi (ilog2 x - 52)"
  using assms by (simp add: round_double_def Let_def)

lemma exponent_unit:
  "(2::rat) powi e = 2 ^ 52 * 2 powi (e - 52)" "(2::rat) powi (e + 1) = 2 ^ 53 * 2 powi (e - 52)"
  by (simp_all add: power_int_diff power_int_add)

lemma significand_range:
  assumes "0 < x"
  shows "2 ^ 52 \<le> x / 2 powi (ilog2 x - 52) \<and> x / 2 powi (ilog2 x - 52) < 2 ^ 53"
proof -
  let ?u = "(2::rat) powi (ilog2 x - 52)"
  have u: "0 < ?u" by (rule two_powi_pos)
  from ilog2_bounds [OF assms] have "2 ^ 52 * ?u \<le> x" "x < 2 ^ 53 * ?u"
    unfolding exponent_unit [of "ilog2 x"] by simp_all
  then show ?thesis using u by (simp only: pos_le_divide_eq pos_divide_less_eq)
qed

lemma round_double_range:
  assumes "0 < x"
  shows "2 powi ilog2 x \<le> round_double x \<and> round_double x \<le> 2 powi (ilog2 x + 1)"
proof -
  let ?u = "(2::rat) powi (ilog2 x - 52)"
  let ?m = "rne (x / ?u)"
  have u: "0 \<le> ?u" using two_powi_pos [of "ilog2 x - 52"] by simp
  have "(2::int) ^ 52 \<le> ?m" using significand_range [OF assms] by (intro rne_ge) simp
  then have "(2::rat) ^ 52 \<le> of_int ?m" by (metis of_int_le_iff of_int_numeral of_int_power)
  then have lo: "2 ^ 52 * ?u \<le> of_int ?m * ?u" using u by (rule mult_right_mono)
  have "?m \<le> (2::int) ^ 53" using significand_range [OF assms] by (intro rne_le) simp
  then have "of_int ?m \<le> (2::rat) ^ 53" by (metis of_int_le_iff of_int_numeral of_int_power)
  then have hi: "of_int ?m * ?u \<le> 2 ^ 53 * ?u" using u by (rule mult_right_mono)
  show ?thesis
    unfolding round_double_pos [OF assms] exponent_unit [of "ilog2 x"] using lo hi by simp
qed

lemma round_double_mono_pos:
  assumes "0 < x" and "x \<le> y"
  shows "round_double x \<le> round_double y"
proof -
  have y: "0 < y" using assms by simp
  note bx = ilog2_bounds [OF assms(1)] and by' = ilog2_bounds [OF y]
  have "(2::rat) powi ilog2 x < 2 powi (ilog2 y + 1)" using bx by' assms(2) by linarith
  then have le: "ilog2 x \<le> ilog2 y" using two_powi_less_cancel by fastforce
  show ?thesis
  proof (cases "ilog2 x = ilog2 y")
    case True
    let ?u = "(2::rat) powi (ilog2 y - 52)"
    have u: "0 < ?u" by (rule two_powi_pos)
    have "x / ?u \<le> y / ?u" using assms(2) u by (simp add: divide_right_mono)
    then have "rne (x / ?u) \<le> rne (y / ?u)" by (rule rne_mono)
    then have "(of_int (rne (x / ?u)) :: rat) \<le> of_int (rne (y / ?u))" by simp
    then have "of_int (rne (x / ?u)) * ?u \<le> of_int (rne (y / ?u)) * ?u"
      using u by (intro mult_right_mono) simp_all
    then show ?thesis
      unfolding round_double_pos [OF assms(1)] round_double_pos [OF y] True .
  next
    case False
    with le have "ilog2 x + 1 \<le> ilog2 y" by simp
    then have "(2::rat) powi (ilog2 x + 1) \<le> 2 powi ilog2 y"
      by (intro power_int_increasing) simp_all
    with round_double_range [OF assms(1)] round_double_range [OF y] show ?thesis by linarith
  qed
qed

lemma round_double_zero: "round_double 0 = 0"
  by (simp add: round_double_def)

lemma round_double_minus: "round_double (- x) = - round_double x"
  by (simp add: round_double_def Let_def sgn_minus)

lemma round_double_pos_pos: "0 < x \<Longrightarrow> 0 < round_double x"
  using round_double_range [of x] two_powi_pos [of "ilog2 x"] by linarith

lemma round_double_mono:
  assumes "x \<le> y"
  shows "round_double x \<le> round_double y"
proof -
  consider "0 < x" | "x = 0" | "x < 0" "y < 0" | "x < 0" "y = 0" | "x < 0" "0 < y"
    using assms by linarith
  then show ?thesis
  proof cases
    case 1
    then show ?thesis using assms by (rule round_double_mono_pos)
  next
    case 2
    then show ?thesis using assms round_double_pos_pos [of y]
      by (cases "y = 0") (auto simp: round_double_zero less_imp_le)
  next
    case 3
    then have "round_double (- y) \<le> round_double (- x)"
      using assms by (intro round_double_mono_pos) simp_all
    then show ?thesis by (simp add: round_double_minus)
  next
    case 4
    then show ?thesis using round_double_pos_pos [of "- x"]
      by (simp add: round_double_minus round_double_zero)
  next
    case 5
    then show ?thesis using round_double_pos_pos [of "- x"] round_double_pos_pos [of y]
      by (simp add: round_double_minus)
  qed
qed

lemma round_double_exact:
  assumes "0 < m" and "m < 2 ^ 53"
  shows "round_double (of_int m * 2 powi j) = of_int m * 2 powi j"
proof -
  define x :: rat where "x = of_int m * 2 powi j"
  define e where "e = ilog2 x"
  have pj: "0 < (2::rat) powi j" by (rule two_powi_pos)
  have x: "0 < x" unfolding x_def using assms(1) pj by simp
  have "(of_int m :: rat) < of_int (2 ^ 53)" using assms(2) by (simp only: of_int_less_iff)
  then have "x < 2 ^ 53 * 2 powi j" unfolding x_def using pj by simp
  also have "\<dots> = 2 powi (53 + j)" by (simp add: power_int_add)
  finally have "(2::rat) powi e < 2 powi (53 + j)"
    using ilog2_bounds [OF x] unfolding e_def by linarith
  then have lt: "e < 53 + j" by (rule two_powi_less_cancel)
  define d where "d = nat (j - (e - 52))"
  have j: "j = int d + (e - 52)" unfolding d_def using lt by simp
  have "(2::rat) powi (int d + (e - 52)) = 2 powi (int d) * 2 powi (e - 52)"
    by (rule power_int_add) simp
  then have pj': "(2::rat) powi j = 2 ^ d * 2 powi (e - 52)"
    unfolding j [symmetric] by simp
  have u: "(2::rat) powi (e - 52) \<noteq> 0" using two_powi_pos [of "e - 52"] by simp
  have "x / 2 powi (e - 52) = of_int (m * 2 ^ d)"
    unfolding x_def pj' using u by simp
  then have "rne (x / 2 powi (e - 52)) = m * 2 ^ d" by (simp only: rne_of_int)
  then have "round_double x = of_int (m * 2 ^ d) * 2 powi (e - 52)"
    unfolding round_double_pos [OF x] e_def by simp
  also have "\<dots> = x" unfolding x_def pj' by simp
  finally show ?thesis unfolding x_def .
qed

lemma round_double_of_int:
  assumes "0 \<le> n" and "n < 2 ^ 53"
  shows "round_double (of_int n) = of_int n"
proof (cases "n = 0")
  case True
  then show ?thesis by (simp add: round_double_zero)
next
  case False
  with assms have "0 < n" by simp
  from round_double_exact [OF this assms(2), of 0] show ?thesis by simp
qed

lemma round_double_half:
  assumes "0 < n" and "n < 2 ^ 53"
  shows "round_double (of_int n * (1 / 2)) = of_int n / 2"
  using round_double_exact [OF assms, of "- 1"] by (simp add: power_int_minus)

lemma round_double_sixteenth:
  assumes "0 \<le> r" and "r < 2 ^ 49"
  shows "round_double (of_int r + 1 / 16) = of_int r + 1 / 16"
proof -
  have "0 < 16 * r + 1" "16 * r + 1 < 2 ^ 53" using assms by simp_all
  from round_double_exact [OF this, of "- 4"] show ?thesis
    by (simp add: power_int_minus field_simps)
qed

lemma c80: "round_double (round_double (4 / 5) * 100) = 80"
  by code_simp

lemma y80: "round_double (900719925474099 / 1125899906842624) = 900719925474099 / 1125899906842624"
  "round_double (900719925474099 / 1125899906842624 * 100) < 80"
  by code_simp+

lemma c60: "round_double (round_double (3 / 5) * 100) = 60"
  by code_simp

lemma y60: "round_double (2702159776422297 / 4503599627370496) = 2702159776422297 / 4503599627370496"
  "round_double (2702159776422297 / 4503599627370496 * 100) < 60"
  by code_simp+

lemma c03: "round_double (3 / 10) = 5404319552844595 / 18014398509481984"
  by code_simp

lemma c05: "round_double (5 / 10) = 1 / 2"
  by code_simp

lemma quotient_below:
  fixes d n a b :: int
  assumes "0 < n" and "0 < b" and "b * d < a * n"
  shows "(of_int d / of_int n :: rat) \<le> of_int a / of_int b - 1 / (of_int b * of_int n)"
proof -
  have "b * d + 1 \<le> a * n" using assms(3) by simp
  then have "(of_int (b * d + 1) :: rat) \<le> of_int (a * n)" by (simp only: of_int_le_iff)
  then have "(of_int b * of_int d + 1 :: rat) \<le> of_int a * of_int n" by simp
  then show ?thesis using assms(1,2) by (simp add: field_simps)
qed

lemma doc_percentage_ge_80:
  assumes "0 < n" and "n \<le> 10 ^ 15"
  shows "80 \<le> float_mul (int_truediv d n) 100 \<longleftrightarrow> 4 * n \<le> 5 * d"
proof
  assume "4 * n \<le> 5 * d"
  then have "(of_int (4 * n) :: rat) \<le> of_int (5 * d)" by (simp only: of_int_le_iff)
  then have "(4 / 5 :: rat) \<le> of_int d / of_int n" using assms(1) by (simp add: field_simps)
  then have "round_double (4 / 5) \<le> int_truediv d n"
    unfolding int_truediv_def by (rule round_double_mono)
  then have "round_double (4 / 5) * 100 \<le> int_truediv d n * 100" by simp
  then have "round_double (round_double (4 / 5) * 100) \<le> float_mul (int_truediv d n) 100"
    unfolding float_mul_def by (rule round_double_mono)
  then show "80 \<le> float_mul (int_truediv d n) 100" by (simp add: c80)
next
  assume h: "80 \<le> float_mul (int_truediv d n) 100"
  show "4 * n \<le> 5 * d"
  proof (rule ccontr)
    assume "\<not> 4 * n \<le> 5 * d"
    then have "5 * d < 4 * n" by simp
    from quotient_below [OF assms(1) _ this]
    have "(of_int d / of_int n :: rat) \<le> 4 / 5 - 1 / (5 * of_int n)" by simp
    also have "\<dots> \<le> 4 / 5 - 1 / (5 * 10 ^ 15)"
    proof -
      have "(of_int n :: rat) \<le> of_int (10 ^ 15)" using assms(2) by (simp only: of_int_le_iff)
      then have "(5 * of_int n :: rat) \<le> 5 * 10 ^ 15" by simp
      moreover have "(0::rat) < 5 * of_int n" using assms(1) by simp
      ultimately have "1 / (5 * 10 ^ 15) \<le> 1 / (5 * of_int n :: rat)"
        by (intro divide_left_mono) simp_all
      then show ?thesis by simp
    qed
    also have "\<dots> \<le> 900719925474099 / 1125899906842624" by simp
    finally have "int_truediv d n \<le> 900719925474099 / 1125899906842624"
      unfolding int_truediv_def using round_double_mono y80(1) by metis
    then have "int_truediv d n * 100 \<le> 900719925474099 / 1125899906842624 * 100" by simp
    then have "float_mul (int_truediv d n) 100
               \<le> round_double (900719925474099 / 1125899906842624 * 100)"
      unfolding float_mul_def by (rule round_double_mono)
    with y80(2) h show False by simp
  qed
qed

lemma doc_percentage_ge_60:
  assumes "0 < n" and "n \<le> 10 ^ 15"
  shows "60 \<le> float_mul (int_truediv d n) 100 \<longleftrightarrow> 3 * n \<le> 5 * d"
proof
  assume "3 * n \<le> 5 * d"
  then have "(of_int (3 * n) :: rat) \<le> of_int (5 * d)" by (simp only: of_int_le_iff)
  then have "(3 / 5 :: rat) \<le> of_int d / of_int n" using assms(1) by (simp add: field_simps)
  then have "round_double (3 / 5) \<le> int_truediv d n"
    unfolding int_truediv_def by (rule round_double_mono)
  then have "round_double (3 / 5) * 100 \<le> int_truediv d n * 100" by simp
  then have "round_double (round_double (3 / 5) * 100) \<le> float_mul (int_truediv d n) 100"
    unfolding float_mul_def by (rule round_double_mono)
  then show "60 \<le> float_mul (int_truediv d n) 100" by (simp add: c60)
next
  assume h: "60 \<le> float_mul (int_truediv d n) 100"
  show "3 * n \<le> 5 * d"
  proof (rule ccontr)
    assume "\<not> 3 * n \<le> 5 * d"
    then have "5 * d < 3 * n" by simp
    from quotient_below [OF assms(1) _ this]
    have "(of_int d / of_int n :: rat) \<le> 3 / 5 - 1 / (5 * of_int n)" by simp
    also have "\<dots> \<le> 3 / 5 - 1 / (5 * 10 ^ 15)"
    proof -
      have "(of_int n :: rat) \<le> of_int (10 ^ 15)" using assms(2) by (simp only: of_int_le_iff)
      then have "(5 * of_int n :: rat) \<le> 5 * 10 ^ 15" by simp
      moreover have "(0::rat) < 5 * of_int n" using assms(1) by simp
      ultimately have "1 / (5 * 10 ^ 15) \<le> 1 / (5 * of_int n :: rat)"
        by (intro divide_left_mono) simp_all
      then show ?thesis by simp
    qed
    also have "\<dots> \<le> 2702159776422297 / 4503599627370496" by simp
    finally have "int_truediv d n \<le> 2702159776422297 / 4503599627370496"
      unfolding int_truediv_def using round_double_mono y60(1) by metis
    then have "int_truediv d n * 100 \<le> 2702159776422297 / 4503599627370496 * 100" by simp
    then have "float_mul (int_truediv d n) 100
               \<le> round_double (2702159776422297 / 4503599627370496 * 100)"
      unfolding float_mul_def by (rule round_double_mono)
    with y60(2) h show False by simp
  qed
qed

lemma small_count: "(n::int) \<le> 10 ^ 15 \<Longrightarrow> n < 2 ^ 53"
  by simp

lemma maintenance_half:
  assumes "0 < n" and "n \<le> 10 ^ 15"
  shows "float_mul (float_of_int n) (float_lit (5 / 10)) \<le> of_int r \<longleftrightarrow> n \<le> 2 * r"
proof -
  have n: "n < 2 ^ 53" using assms(2) by (rule small_count)
  have "float_of_int n = of_int n"
    unfolding float_of_int_def using assms(1) n by (intro round_double_of_int) simp_all
  then have "float_mul (float_of_int n) (float_lit (5 / 10)) = of_int n / 2"
    unfolding float_mul_def float_lit_def c05 by (simp only: round_double_half [OF assms(1) n])
  moreover have "(of_int n / 2 \<le> (of_int r :: rat)) \<longleftrightarrow> n \<le> 2 * r"
  proof -
    have "(of_int n / 2 \<le> (of_int r :: rat)) \<longleftrightarrow> (of_int n :: rat) \<le> of_int (2 * r)"
      by (simp add: field_simps)
    then show ?thesis by (simp only: of_int_le_iff)
  qed
  ultimately show ?thesis by (simp only:)
qed

lemma maintenance_three_tenths:
  assumes "0 < n" and "n \<le> 10 ^ 15"
  shows "float_mul (float_of_int n) (float_lit (3 / 10)) \<le> of_int r \<longleftrightarrow> 3 * n \<le> 10 * r"
proof -
  have n: "n < 2 ^ 53" using assms(2) by (rule small_count)
  have fn: "float_of_int n = of_int n"
    unfolding float_of_int_def using assms(1) n by (intro round_double_of_int) simp_all
  define p :: rat where "p = of_int n * (5404319552844595 / 18014398509481984)"
  have prod: "float_mul (float_of_int n) (float_lit (3 / 10)) = round_double p"
    unfolding float_mul_def float_lit_def c03 fn p_def ..
  have "(of_int n :: rat) \<le> of_int (10 ^ 15)" using assms(2) by (simp only: of_int_le_iff)
  then have nr: "(0::rat) < of_int n" "(of_int n :: rat) \<le> 10 ^ 15"
    using assms(1) by simp_all
  have p_le: "p \<le> 3 * of_int n / 10" unfolding p_def using nr by simp
  have p_ge: "3 * of_int n / 10 - 1 / 80 \<le> p" unfolding p_def using nr by simp
  have p_pos: "0 < p" unfolding p_def using nr by simp
  show ?thesis
  proof
    assume "3 * n \<le> 10 * r"
    define m where "m = \<lceil>3 * of_int n / 10 :: rat\<rceil>"
    have "(3 * of_int n / 10 :: rat) \<le> of_int r"
    proof -
      have "(of_int (3 * n) :: rat) \<le> of_int (10 * r)"
        using \<open>3 * n \<le> 10 * r\<close> by (simp only: of_int_le_iff)
      then show ?thesis by simp
    qed
    then have mr: "m \<le> r" unfolding m_def by (rule ceiling_le)
    have m0: "0 \<le> m" unfolding m_def using nr by (simp add: ceiling_le_iff le_ceiling_iff)
    have "(3 * of_int n / 10 :: rat) \<le> of_int n" using nr by simp
    then have "m \<le> n" unfolding m_def by (rule ceiling_le)
    then have m53: "m < 2 ^ 53" using n by simp
    have "p \<le> of_int m" using p_le unfolding m_def by (meson le_of_int_ceiling order_trans)
    then have "round_double p \<le> round_double (of_int m)" by (rule round_double_mono)
    also have "\<dots> = of_int m" using m0 m53 by (rule round_double_of_int)
    also have "\<dots> \<le> of_int r" using mr by simp
    finally show "float_mul (float_of_int n) (float_lit (3 / 10)) \<le> of_int r"
      unfolding prod .
  next
    assume h: "float_mul (float_of_int n) (float_lit (3 / 10)) \<le> of_int r"
    show "3 * n \<le> 10 * r"
    proof (rule ccontr)
      assume "\<not> 3 * n \<le> 10 * r"
      then have lt: "10 * r + 1 \<le> 3 * n" by simp
      have r0: "0 \<le> r"
      proof (rule ccontr)
        assume "\<not> 0 \<le> r"
        then have "(of_int r :: rat) < 0" by simp
        with h round_double_pos_pos [OF p_pos] show False unfolding prod by linarith
      qed
      have "r < 2 ^ 49" using lt assms(2) by simp
      have "(of_int (10 * r + 1) :: rat) \<le> of_int (3 * n)" using lt by (simp only: of_int_le_iff)
      then have "(of_int r + 1 / 10 :: rat) \<le> 3 * of_int n / 10" by simp
      then have "of_int r + 1 / 16 \<le> p" using p_ge by simp
      then have "round_double (of_int r + 1 / 16) \<le> round_double p" by (rule round_double_mono)
      then have "of_int r + 1 / 16 \<le> round_double p"
        by (simp only: round_double_sixteenth [OF r0 \<open>r < 2 ^ 49\<close>])
      with h show False unfolding prod by simp
    qed
  qed
qed

subsection \<open>Profile completeness\<close>

lemma profile_score_eq: "score (analyze_profile_completeness u) = profile_points u"
  by (simp add: analyze_profile_completeness_def profile_points_def Let_def)

lemma profile_points_bounds: "0 \<le> profile_points u \<and> profile_points u \<le> 100"
  by (simp add: profile_points_def)

text \<open>
  Claim C4. For every profile the score of \<open>analyze_profile_completeness\<close> is the sum of
  the per-field point table (name, bio, location, company 10 each; email, blog, twitter
  handle and a positive follower count 15 each), so it lies between 0 and 100; a profile
  with only the name set and 5 followers scores 10 + 15 = 25.
\<close>

theorem profile_table:
  "score (analyze_profile_completeness u) = profile_points u
   \<and> 0 \<le> score (analyze_profile_completeness u)
   \<and> score (analyze_profile_completeness u) \<le> 100
   \<and> (truthy (name u) \<and> \<not> truthy (bio u) \<and> \<not> truthy (location u) \<and> \<not> truthy (company u)
        \<and> \<not> truthy (email u) \<and> \<not> truthy (blog u) \<and> \<not> truthy (twitter_username u)
        \<and> followers u = Some 5
      \<longrightarrow> score (analyze_profile_completeness u) = 10 + 15)"
  using profile_points_bounds [of u]
  by (simp add: profile_score_eq) (simp add: profile_points_def get0_def)

theorem profile_table_witness:
  "truthy (name \<lparr>name = Some ''Ada'', bio = None, location = None, company = None,
                  email = None, blog = Some [], twitter_username = None, followers = Some 5\<rparr>)
   \<and> score (analyze_profile_completeness
        \<lparr>name = Some ''Ada'', bio = None, location = None, company = None,
         email = None, blog = Some [], twitter_username = None, followers = Some 5\<rparr>) = 25"
  using profile_table [of "\<lparr>name = Some ''Ada'', bio = None, location = None, company = None,
         email = None, blog = Some [], twitter_username = None, followers = Some 5\<rparr>"]
  by (simp add: truthy_def)

subsection \<open>Empty collections\<close>

text \<open>
  Claim C5. On the empty repository collection \<open>analyze_repository_quality\<close> returns score 0
  with exactly one detail, and on the empty event collection \<open>analyze_activity_consistency\<close>
  returns score 0 with exactly one detail; both return a result (no exception) and read
  no clock.
\<close>

theorem empty_collections:
  "analyze_repository_quality clk k [] =
     Inr (\<lparr>score = 0, details = [Detail FAIL Cross ''No repositories'' NoArg]\<rparr>, k)
   \<and> analyze_activity_consistency clk k [] =
     Inr (\<lparr>score = 0, details = [Detail FAIL Cross ''No recent activity'' NoArg]\<rparr>, k)"
  by (simp add: analyze_repository_quality_def analyze_activity_consistency_def)

subsection \<open>Repository quality: the shape of the result\<close>

lemma recent_count_Nil: "recent_count clk k [] = 0"
  by (simp add: recent_count_def)

lemma recent_count_Cons:
  "recent_count clk k (r # rs) =
     (case updated_at r of None \<Rightarrow> 0 | Some t \<Rightarrow> if clk k - timedelta_days 90 < t then 1 else 0)
     + recent_count clk (Suc k) rs"
proof -
  have "enumerate (Suc n) rs = map (\<lambda>(i, x). (Suc i, x)) (enumerate n rs)" for n
    by (induction rs arbitrary: n) simp_all
  then have e: "enumerate (Suc 0) rs = map (\<lambda>(i, x). (Suc i, x)) (enumerate 0 rs)" .
  show ?thesis
    by (simp add: recent_count_def e filter_map comp_def case_prod_unfold split: option.splits)
qed

lemma recent_repos_of_parseable:
  "parseable rs \<Longrightarrow>
   recent_repos_of clk k acc rs = Inr (acc + recent_count clk k rs, k + length rs)"
proof (induction rs arbitrary: k acc)
  case Nil
  show ?case by (simp add: recent_count_Nil)
next
  case (Cons r rs)
  then obtain t where t: "updated_at r = Some t" and p: "parseable rs"
    by (auto simp: parseable_def)
  show ?case using Cons.IH [OF p] by (simp add: t recent_count_Cons)
qed

lemma recent_repos_of_unparseable:
  "\<not> parseable rs \<Longrightarrow> recent_repos_of clk k acc rs = Inl BadTimestamp"
  by (induction rs arbitrary: k acc) (auto simp: parseable_def split: option.splits)

lemma recent_count_bounds: "0 \<le> recent_count clk k rs \<and> recent_count clk k rs \<le> int (length rs)"
proof -
  have "length (filter (\<lambda>(i, repo). case updated_at repo of None \<Rightarrow> False
            | Some t \<Rightarrow> clk (k + i) - timedelta_days 90 < t) (enumerate 0 rs))
        \<le> length (enumerate 0 rs)"
    by (rule length_filter_le)
  then show ?thesis by (simp add: recent_count_def)
qed

lemma repo_quality_nonempty:
  assumes "rs \<noteq> []" and "parseable rs"
  shows "analyze_repository_quality clk k rs =
     Inr (\<lparr>score = fst (repository_count_block (int (length rs)))
                  + fst (documentation_block (documented_repos_of rs) (int (length rs)))
                  + fst (language_block (lang_count_of rs))
                  + fst (stars_block (total_stars_of rs))
                  + fst (maintenance_block (recent_count clk k rs) (int (length rs))),
           details = [snd (repository_count_block (int (length rs))),
                      snd (documentation_block (documented_repos_of rs) (int (length rs))),
                      snd (language_block (lang_count_of rs)),
                      snd (stars_block (total_stars_of rs)),
                      snd (maintenance_block (recent_count clk k rs) (int (length rs)))]\<rparr>,
          k + length rs)"
  using assms(1)
  by (simp add: analyze_repository_quality_def recent_repos_of_parseable [OF assms(2)]
        Let_def case_prod_unfold lang_count_of_def total_stars_of_def)

lemma repo_quality_unparseable:
  assumes "\<not> parseable rs"
  shows "analyze_repository_quality clk k rs = Inl BadTimestamp"
proof -
  have "rs \<noteq> []" using assms by (auto simp: parseable_def)
  then show ?thesis
    by (simp add: analyze_repository_quality_def recent_repos_of_unparseable [OF assms]
        Let_def case_prod_unfold)
qed

lemma repository_count_block_range: "fst (repository_count_block n) \<in> {10, 15, 20}"
  by (simp add: repository_count_block_def)

lemma documentation_block_range: "fst (documentation_block d n) \<in> {10, 20, 25}"
  by (simp add: documentation_block_def Let_def)

lemma language_block_range: "fst (language_block n) \<in> {10, 15, 20}"
  by (simp add: language_block_def)

lemma stars_block_range: "fst (stars_block n) \<in> {5, 10, 15}"
  by (simp add: stars_block_def)

lemma maintenance_block_range: "fst (maintenance_block r n) \<in> {5, 10, 15}"
  by (simp add: maintenance_block_def)

lemma repo_score_range:
  assumes "rs \<noteq> []" and "parseable rs"
  shows "\<exists>res. analyze_repository_quality clk k rs = Inr (res, k + length rs)
               \<and> 40 \<le> score res \<and> score res \<le> 95"
proof -
  let ?n = "int (length rs)"
  have "10 \<le> fst (repository_count_block ?n) \<and> fst (repository_count_block ?n) \<le> 20"
    using repository_count_block_range [of ?n] by auto
  moreover have "10 \<le> fst (documentation_block (documented_repos_of rs) ?n)
      \<and> fst (documentation_block (documented_repos_of rs) ?n) \<le> 25"
    using documentation_block_range [of "documented_repos_of rs" ?n] by auto
  moreover have "10 \<le> fst (language_block (lang_count_of rs))
      \<and> fst (language_block (lang_count_of rs)) \<le> 20"
    using language_block_range [of "lang_count_of rs"] by auto
  moreover have "5 \<le> fst (stars_block (total_stars_of rs))
      \<and> fst (stars_block (total_stars_of rs)) \<le> 15"
    using stars_block_range [of "total_stars_of rs"] by auto
  moreover have "5 \<le> fst (maintenance_block (recent_count clk k rs) ?n)
      \<and> fst (maintenance_block (recent_count clk k rs) ?n) \<le> 15"
    using maintenance_block_range [of "recent_count clk k rs" ?n] by auto
  ultimately show ?thesis
    by (simp add: repo_quality_nonempty [OF assms])
qed

lemma repo_score_range_any:
  assumes "analyze_repository_quality clk k rs = Inr (res, k')"
  shows "0 \<le> score res \<and> score res \<le> 95"
proof (cases "rs = []")
  case True
  with assms show ?thesis by (auto simp add: analyze_repository_quality_def)
next
  case False
  have p: "parseable rs" using assms repo_quality_unparseable [of rs clk k] by auto
  from repo_score_range [OF False p, of clk k] assms show ?thesis by auto
qed

text \<open>
  Claim C10. For every non-empty repository collection whose timestamps parse,
  \<open>analyze_repository_quality\<close> returns a score between 40 and 95: every block awards at
  least its lowest bucket (10 + 10 + 10 + 5 + 5) and at most its highest
  (20 + 25 + 20 + 15 + 15), so 100 is never reached.
\<close>

theorem repository_score_range:
  assumes "rs \<noteq> []" and "parseable rs"
  shows "\<exists>res. analyze_repository_quality clk k rs = Inr (res, k + length rs)
               \<and> 40 \<le> score res \<and> score res \<le> 95 \<and> score res \<noteq> 100"
  using repo_score_range [OF assms, of clk k] by auto

theorem repository_score_range_witness:
  "\<exists>res. analyze_repository_quality sample_clock 0 sample_repos_a
                = Inr (res, 0 + length sample_repos_a)
         \<and> 40 \<le> score res \<and> score res \<le> 95 \<and> score res \<noteq> 100"
proof -
  have "sample_repos_a \<noteq> []" "parseable sample_repos_a"
    by (simp_all add: sample_repos_a_def sample_repo_def parseable_def)
  from repository_score_range [OF this, of sample_clock 0] show ?thesis .
qed

subsection \<open>Repository quality: the five sub-scores\<close>

lemma count_block_spec: "fst (repository_count_block n) = spec_count_tier n"
  by (simp add: repository_count_block_def spec_count_tier_def)

lemma language_block_spec: "fst (language_block n) = spec_language_tier n"
  by (simp add: language_block_def spec_language_tier_def)

lemma stars_block_spec: "fst (stars_block n) = spec_popularity_tier n"
  by (simp add: stars_block_def spec_popularity_tier_def)

lemma documented_repos_spec: "documented_repos_of rs = spec_documented_count rs"
  by (induction rs) (simp_all add: documented_repos_of_def spec_documented_count_def truthy_def)

lemma languages_of_spec:
  "languages_of rs ls =
     ls \<union> set (List.map_filter (\<lambda>repo. case language repo of None \<Rightarrow> None
                | Some l \<Rightarrow> if l \<noteq> [] then Some l else None) rs)"
  by (induction rs arbitrary: ls)
     (auto simp add: map_filter_simps truthy_def split: option.splits)

lemma lang_count_spec: "lang_count_of rs = spec_language_count rs"
  by (simp add: lang_count_of_def spec_language_count_def languages_of_spec)

lemma documentation_block_spec:
  assumes "0 < n" and "n \<le> 10 ^ 15"
  shows "fst (documentation_block d n) = spec_documentation_tier d n"
proof -
  have n: "(0::rat) < of_int n" using assms(1) by simp
  have "(80 \<le> (of_int d / of_int n * 100 :: rat)) \<longleftrightarrow> (of_int (4 * n) :: rat) \<le> of_int (5 * d)"
    using n by (simp add: field_simps)
  then have a: "(80 \<le> (of_int d / of_int n * 100 :: rat)) \<longleftrightarrow> 4 * n \<le> 5 * d"
    by (simp only: of_int_le_iff)
  have "(60 \<le> (of_int d / of_int n * 100 :: rat)) \<longleftrightarrow> (of_int (3 * n) :: rat) \<le> of_int (5 * d)"
    using n by (simp add: field_simps)
  then have b: "(60 \<le> (of_int d / of_int n * 100 :: rat)) \<longleftrightarrow> 3 * n \<le> 5 * d"
    by (simp only: of_int_le_iff)
  show ?thesis
    unfolding documentation_block_def spec_documentation_tier_def Let_def
      doc_percentage_ge_80 [OF assms] doc_percentage_ge_60 [OF assms] a b
    by simp
qed

lemma maintenance_block_spec:
  assumes "0 < n" and "n \<le> 10 ^ 15"
  shows "fst (maintenance_block r n) = spec_recency_tier r n"
proof -
  have n: "(0::rat) < of_int n" using assms(1) by simp
  have "((5 / 10 :: rat) \<le> of_int r / of_int n) \<longleftrightarrow> (of_int n :: rat) \<le> of_int (2 * r)"
    using n by (simp add: field_simps)
  then have a: "((5 / 10 :: rat) \<le> of_int r / of_int n) \<longleftrightarrow> n \<le> 2 * r"
    by (simp only: of_int_le_iff)
  have "((3 / 10 :: rat) \<le> of_int r / of_int n) \<longleftrightarrow> (of_int (3 * n) :: rat) \<le> of_int (10 * r)"
    using n by (simp add: field_simps)
  then have b: "((3 / 10 :: rat) \<le> of_int r / of_int n) \<longleftrightarrow> 3 * n \<le> 10 * r"
    by (simp only: of_int_le_iff)
  show ?thesis
    unfolding maintenance_block_def spec_recency_tier_def Let_def
      maintenance_half [OF assms] maintenance_three_tenths [OF assms] a b
    by simp
qed

text \<open>
  Claim C1. For every non-empty repository collection with parseable timestamps (of at
  most \<open>10 ^ 15\<close> records, where binary64 arithmetic decides the thresholds as exact
  arithmetic does), the score of \<open>analyze_repository_quality\<close> is the sum of the five
  sub-scores of the specification: count (20/15/10 at 10 and 5), documentation ratio
  (25/20/10 at 80% and 60%), distinct non-empty languages (20/15/10 at 5 and 3), stars
  (15/10/5 at 50 and 10) and the fraction updated within 90 days (15/10/5 at 0.5 and 0.3).
  With 12 repositories, 10 documented, 4 languages, 60 stars and 7 recently updated the
  score is 90.
\<close>

theorem repository_score_components:
  assumes "rs \<noteq> []" and "parseable rs" and "int (length rs) \<le> 10 ^ 15"
  shows "\<exists>res. analyze_repository_quality clk k rs = Inr (res, k + length rs)
           \<and> score res = spec_count_tier (int (length rs))
                          + spec_documentation_tier (spec_documented_count rs) (int (length rs))
                          + spec_language_tier (spec_language_count rs)
                          + spec_popularity_tier (total_stars_of rs)
                          + spec_recency_tier (recent_count clk k rs) (int (length rs))
           \<and> (length rs = 12 \<and> spec_documented_count rs = 10 \<and> spec_language_count rs = 4
                \<and> total_stars_of rs = 60 \<and> recent_count clk k rs = 7
              \<longrightarrow> score res = 90)"
proof -
  have n: "0 < int (length rs)" using assms(1) by simp
  have eq: "fst (repository_count_block (int (length rs)))
            + fst (documentation_block (documented_repos_of rs) (int (length rs)))
            + fst (language_block (lang_count_of rs))
            + fst (stars_block (total_stars_of rs))
            + fst (maintenance_block (recent_count clk k rs) (int (length rs)))
          = spec_count_tier (int (length rs))
            + spec_documentation_tier (spec_documented_count rs) (int (length rs))
            + spec_language_tier (spec_language_count rs)
            + spec_popularity_tier (total_stars_of rs)
            + spec_recency_tier (recent_count clk k rs) (int (length rs))"
    by (simp only: count_block_spec documentation_block_spec [OF n assms(3)] documented_repos_spec
          language_block_spec lang_count_spec stars_block_spec
          maintenance_block_spec [OF n assms(3)])
  have sc: "spec_count_tier 12 + spec_documentation_tier 10 12 + spec_language_tier 4
            + spec_popularity_tier 60 + spec_recency_tier 7 12 = 90"
    by (simp add: spec_count_tier_def spec_documentation_tier_def spec_language_tier_def
          spec_popularity_tier_def spec_recency_tier_def)
  show ?thesis
    unfolding repo_quality_nonempty [OF assms(1,2)] using eq sc by auto
qed

lemma scenario_facts:
  "scenario_repos \<noteq> []" "parseable scenario_repos" "int (length scenario_repos) \<le> 10 ^ 15"
  "length scenario_repos = 12" "spec_documented_count scenario_repos = 10"
  "spec_language_count scenario_repos = 4" "total_stars_of scenario_repos = 60"
  "recent_count sample_clock 0 scenario_repos = 7"
  by code_simp+

theorem repository_score_components_witness:
  "\<exists>res. analyze_repository_quality sample_clock 0 scenario_repos = Inr (res, 12)
         \<and> score res = 90"
  using repository_score_components [OF scenario_facts(1,2,3), of sample_clock 0]
  by (auto simp add: scenario_facts)

text \<open>
  Claim C8. With the number of repositories fixed, the documentation sub-score that
  \<open>analyze_repository_quality\<close> adds (the points of \<open>documentation_block\<close>) never decreases
  when the number of documented repositories increases.
\<close>

theorem documentation_monotone:
  assumes "0 < n" and "d1 \<le> d2"
  shows "fst (documentation_block d1 n) \<le> fst (documentation_block d2 n)"
proof -
  have "(of_int d1 :: rat) \<le> of_int d2" using assms(2) by simp
  then have "(of_int d1 / of_int n :: rat) \<le> of_int d2 / of_int n"
    using assms(1) by (simp add: divide_right_mono)
  then have "int_truediv d1 n \<le> int_truediv d2 n"
    unfolding int_truediv_def by (rule round_double_mono)
  then have "int_truediv d1 n * 100 \<le> int_truediv d2 n * 100" by simp
  then have "float_mul (int_truediv d1 n) 100 \<le> float_mul (int_truediv d2 n) 100"
    unfolding float_mul_def by (rule round_double_mono)
  then show ?thesis by (auto simp add: documentation_block_def Let_def)
qed

theorem documentation_monotone_witness:
  "fst (documentation_block 7 12) = 10 \<and> fst (documentation_block 10 12) = 25
   \<and> fst (documentation_block 7 12) \<le> fst (documentation_block 10 12)"
proof -
  have "fst (documentation_block 7 12) = 10" "fst (documentation_block 10 12) = 25"
    by code_simp+
  moreover have "fst (documentation_block 7 12) \<le> fst (documentation_block 10 12)"
    using documentation_monotone [of 12 7 10] by simp
  ultimately show ?thesis by simp
qed

subsection \<open>Fork counts\<close>

lemma documented_erase_forks: "documented_repos_of (erase_forks rs) = documented_repos_of rs"
  by (induction rs) (simp_all add: documented_repos_of_def erase_forks_def)

lemma languages_erase_forks: "languages_of (erase_forks rs) ls = languages_of rs ls"
  by (induction rs arbitrary: ls) (simp_all add: erase_forks_def)

lemma stars_erase_forks:
  "sum_list (map (\<lambda>repo. get0 (stargazers_count repo)) (erase_forks rs))
   = sum_list (map (\<lambda>repo. get0 (stargazers_count repo)) rs)"
  by (induction rs) (simp_all add: erase_forks_def)

lemma recent_erase_forks:
  "recent_repos_of clk k acc (erase_forks rs) = recent_repos_of clk k acc rs"
  by (induction rs arbitrary: k acc) (simp_all add: erase_forks_def split: option.splits)

lemma analyze_erase_forks:
  "analyze_repository_quality clk k (erase_forks rs) = analyze_repository_quality clk k rs"
proof -
  have "erase_forks rs = [] \<longleftrightarrow> rs = []" "length (erase_forks rs) = length rs"
    by (simp_all add: erase_forks_def)
  then show ?thesis
    by (simp add: analyze_repository_quality_def documented_erase_forks languages_erase_forks
          stars_erase_forks recent_erase_forks Let_def)
qed

text \<open>
  Claim C7. Two repository collections that are equal up to the \<^verbatim>\<open>forks_count\<close> of their
  records get the same result from \<open>analyze_repository_quality\<close> (same score, same details,
  same error) under the same clock: the fork total is computed and never used.
\<close>

theorem forks_do_not_count:
  assumes "erase_forks rs1 = erase_forks rs2"
  shows "analyze_repository_quality clk k rs1 = analyze_repository_quality clk k rs2"
proof -
  have "analyze_repository_quality clk k rs1 = analyze_repository_quality clk k (erase_forks rs1)"
    by (simp add: analyze_erase_forks)
  also have "\<dots> = analyze_repository_quality clk k (erase_forks rs2)"
    by (simp add: assms)
  also have "\<dots> = analyze_repository_quality clk k rs2"
    by (simp add: analyze_erase_forks)
  finally show ?thesis .
qed

theorem forks_do_not_count_witness:
  "sample_repos_a \<noteq> sample_repos_b
   \<and> analyze_repository_quality sample_clock 0 sample_repos_a
     = analyze_repository_quality sample_clock 0 sample_repos_b"
proof -
  have e: "erase_forks sample_repos_a = erase_forks sample_repos_b"
    by (simp add: erase_forks_def sample_repos_a_def sample_repos_b_def sample_repo_def)
  have "sample_repos_a \<noteq> sample_repos_b"
    by (simp add: sample_repos_a_def sample_repos_b_def sample_repo_def)
  with forks_do_not_count [OF e, of sample_clock 0] show ?thesis by simp
qed

subsection \<open>Activity consistency\<close>

lemma activity_score_range:
  assumes "analyze_activity_consistency clk k es = Inr (res, k')"
  shows "0 \<le> score res \<and> score res \<le> 100"
proof (cases es)
  case Nil
  with assms show ?thesis by (auto simp add: analyze_activity_consistency_def)
next
  case (Cons e es')
  with assms show ?thesis
    by (auto simp add: analyze_activity_consistency_def Let_def split: option.splits if_splits)
qed

subsection \<open>Recommendations and tier\<close>

lemma print_details_eq: "print_details ds out = out @ map Indented ds"
  by (induction ds arbitrary: out) (simp_all add: print_def)

lemma print_recommendations_eq:
  "print_recommendations p r a t out =
     out @ [Title ''RECOMMENDATIONS:''] @ category_remarks p r a @ [tier_line (tier_of t)]"
  by (simp add: print_recommendations_def print_def tier_line_def tier_of_def Let_def
        category_remarks_def)

lemma main_after_fetch_eq:
  assumes "analyze_repository_quality clk 0 (repos data) = Inr (ra, k)"
    and "analyze_activity_consistency clk k (events data) = Inr (aa, k')"
  shows "main_after_fetch clk data =
     Inr ([Rule, Title ''GITHUB STRENGTH ANALYSIS'', Rule,
           Meter (score (analyze_profile_completeness (user data)) + score ra + score aa) 300
             ''OVERALL GITHUB STRENGTH'',
           Meter (score (analyze_profile_completeness (user data))) 100 ''PROFILE COMPLETENESS'']
          @ map Indented (details (analyze_profile_completeness (user data)))
          @ [Meter (score ra) 100 ''REPOSITORY QUALITY''] @ map Indented (details ra)
          @ [Meter (score aa) 100 ''ACTIVITY CONSISTENCY''] @ map Indented (details aa)
          @ [Title ''RECOMMENDATIONS:'']
          @ category_remarks (score (analyze_profile_completeness (user data))) (score ra) (score aa)
          @ [tier_line (tier_of (score (analyze_profile_completeness (user data))
                                 + score ra + score aa)), Rule])"
  by (simp add: main_after_fetch_def assms Let_def print_details_eq print_recommendations_eq
        print_def)

lemma main_after_fetch_error:
  "analyze_repository_quality clk 0 (repos data) = Inl e \<Longrightarrow> main_after_fetch clk data = Inl e"
  "analyze_repository_quality clk 0 (repos data) = Inr (ra, k) \<Longrightarrow>
   analyze_activity_consistency clk k (events data) = Inl e \<Longrightarrow> main_after_fetch clk data = Inl e"
  by (simp_all add: main_after_fetch_def Let_def)

lemma sample_repo_analysis:
  "analyze_repository_quality sample_clock 0 (repos sample_data) =
     Inr (\<lparr>score = 70,
           details = [Detail WARNING Triangle ''Few repositories ({})'' (IntArg 1),
                      Detail OKGREEN Tick ''Excellent documentation ({:.1f}%)'' (FloatArg 100),
                      Detail WARNING Triangle ''Limited language diversity ({} languages)'' (IntArg 1),
                      Detail OKCYAN Ring ''Good community engagement ({} stars)'' (IntArg 12),
                      Detail OKGREEN Tick ''Active maintenance ({} recently updated)'' (IntArg 1)]\<rparr>, 1)"
  by code_simp

lemma sample_activity_analysis:
  "analyze_activity_consistency sample_clock 1 (events sample_data) =
     Inr (\<lparr>score = 60,
           details = [Detail WARNING Triangle ''Limited activity ({} recent events)'' (IntArg 1),
                      Detail WARNING Triangle ''Limited activity diversity ({} types)'' (IntArg 1),
                      Detail OKGREEN Tick ''Very recent activity ({} days ago)'' (IntArg 3)]\<rparr>, 2)"
  by code_simp

text \<open>
  Claim C2. The closing remark that \<open>main\<close> prints last in the recommendations classifies
  the total exactly: 240 and more is excellent, 180 to 239 is good, less than 180 is needs
  improvement; so 240 is excellent, 239 and 180 are good, 179 is needs improvement. The
  three remarks are distinct.
\<close>

theorem tier_classification:
  "(240 \<le> t \<longrightarrow> last (print_recommendations p r a t out) = tier_line Excellent)
   \<and> (180 \<le> t \<and> t < 240 \<longrightarrow> last (print_recommendations p r a t out) = tier_line Good)
   \<and> (t < 180 \<longrightarrow> last (print_recommendations p r a t out) = tier_line NeedsImprovement)
   \<and> last (print_recommendations p r a 240 out) = tier_line Excellent
   \<and> last (print_recommendations p r a 239 out) = tier_line Good
   \<and> last (print_recommendations p r a 180 out) = tier_line Good
   \<and> last (print_recommendations p r a 179 out) = tier_line NeedsImprovement
   \<and> inj tier_line"
  by (auto simp add: print_recommendations_eq tier_of_def inj_def tier_line_def
           split: tier.splits)

theorem tier_classification_witness:
  "(240::int) \<le> 250 \<and> last (print_recommendations 90 80 80 250 []) = tier_line Excellent
   \<and> (180::int) \<le> 200 \<and> (200::int) < 240
   \<and> last (print_recommendations 50 70 80 200 []) = tier_line Good
   \<and> (100::int) < 180 \<and> last (print_recommendations 25 40 35 100 []) = tier_line NeedsImprovement"
  using tier_classification [of 250 90 80 80 "[]"] tier_classification [of 200 50 70 80 "[]"]
    tier_classification [of 100 25 40 35 "[]"]
  by simp

text \<open>
  Claim C9. The recommendations are a function of the three category scores: after the
  heading, a profile score below 80 gives the profile remark, a repository score below 80
  the two repository remarks, an activity score below 80 the activity remark, in this
  order and nothing for a score of 80 or more; exactly one closing remark, that of the
  tier, follows. In a run of \<open>main\<close> the total that picks the tier is the sum of the three
  scores, and the recommendations are the last thing printed before the final rule.
\<close>

theorem recommendations_output:
  "print_recommendations p r a t out =
     out @ [Title ''RECOMMENDATIONS:'']
       @ (if p < 80
          then [Indented (Detail WARNING Bullet
                  ''Complete your profile with missing information'' NoArg)]
          else [])
       @ (if r < 80
          then [Indented (Detail WARNING Bullet ''Add descriptions to your repositories'' NoArg),
                Indented (Detail WARNING Bullet ''Diversify your programming languages'' NoArg)]
          else [])
       @ (if a < 80
          then [Indented (Detail WARNING Bullet
                  ''Increase your GitHub activity and consistency'' NoArg)]
          else [])
       @ [tier_line (tier_of t)]
   \<and> (analyze_repository_quality clk 0 (repos data) = Inr (ra, k)
        \<and> analyze_activity_consistency clk k (events data) = Inr (aa, k')
      \<longrightarrow> (\<exists>before. main_after_fetch clk data =
             Inr (before
                  @ [Title ''RECOMMENDATIONS:'']
                  @ category_remarks (score (analyze_profile_completeness (user data)))
                      (score ra) (score aa)
                  @ [tier_line (tier_of (score (analyze_profile_completeness (user data))
                                         + score ra + score aa)), Rule])))"
proof -
  have "\<exists>before. main_after_fetch clk data =
             Inr (before
                  @ [Title ''RECOMMENDATIONS:'']
                  @ category_remarks (score (analyze_profile_completeness (user data)))
                      (score ra) (score aa)
                  @ [tier_line (tier_of (score (analyze_profile_completeness (user data))
                                         + score ra + score aa)), Rule])"
    if h: "analyze_repository_quality clk 0 (repos data) = Inr (ra, k)"
          "analyze_activity_consistency clk k (events data) = Inr (aa, k')"
    unfolding main_after_fetch_eq [OF h] by (metis append.assoc)
  then show ?thesis
    by (simp add: print_recommendations_eq category_remarks_def)
qed

theorem recommendations_output_witness:
  "\<exists>before. main_after_fetch sample_clock sample_data =
      Inr (before
           @ [Title ''RECOMMENDATIONS:'',
              Indented (Detail WARNING Bullet
                ''Complete your profile with missing information'' NoArg),
              Indented (Detail WARNING Bullet ''Add descriptions to your repositories'' NoArg),
              Indented (Detail WARNING Bullet ''Diversify your programming languages'' NoArg),
              Indented (Detail WARNING Bullet
                ''Increase your GitHub activity and consistency'' NoArg),
              tier_line NeedsImprovement, Rule])"
proof -
  have "score (analyze_profile_completeness (user sample_data)) = 25"
    by code_simp
  moreover obtain ra where ra:
    "analyze_repository_quality sample_clock 0 (repos sample_data) = Inr (ra, 1)" "score ra = 70"
    using sample_repo_analysis by simp
  moreover obtain aa where aa:
    "analyze_activity_consistency sample_clock 1 (events sample_data) = Inr (aa, 2)"
    "score aa = 60"
    using sample_activity_analysis by simp
  moreover have "\<exists>before. main_after_fetch sample_clock sample_data =
             Inr (before
                  @ [Title ''RECOMMENDATIONS:'']
                  @ category_remarks (score (analyze_profile_completeness (user sample_data)))
                      (score ra) (score aa)
                  @ [tier_line (tier_of (score (analyze_profile_completeness (user sample_data))
                                         + score ra + score aa)), Rule])"
    using recommendations_output [of 0 0 0 0 "[]" sample_clock sample_data ra 1 aa 2] ra(1) aa(1)
    by blast
  ultimately show ?thesis
    by (simp add: category_remarks_def tier_of_def)
qed

subsection \<open>The composite total\<close>

text \<open>
  Claim C3. In a run of \<open>main\<close> in which both collection scorers return, the total shown
  is the sum of the profile, repository and activity scores, with no clamping; as every
  scorer's result lies in [0, 100], the total lies in [0, 300].
\<close>

theorem composite_total:
  assumes "analyze_repository_quality clk 0 (repos data) = Inr (ra, k)"
    and "analyze_activity_consistency clk k (events data) = Inr (aa, k')"
  shows "(\<exists>out. main_after_fetch clk data = Inr out
           \<and> out ! 3 = Meter (score (analyze_profile_completeness (user data)) + score ra + score aa)
                           300 ''OVERALL GITHUB STRENGTH'')
    \<and> 0 \<le> score (analyze_profile_completeness (user data)) + score ra + score aa
    \<and> score (analyze_profile_completeness (user data)) + score ra + score aa \<le> 300"
proof -
  have m: "\<exists>out. main_after_fetch clk data = Inr out
           \<and> out ! 3 = Meter (score (analyze_profile_completeness (user data)) + score ra + score aa)
                           300 ''OVERALL GITHUB STRENGTH''"
    by (simp add: main_after_fetch_eq [OF assms])
  have p: "0 \<le> score (analyze_profile_completeness (user data))
           \<and> score (analyze_profile_completeness (user data)) \<le> 100"
    using profile_points_bounds [of "user data"] by (simp add: profile_score_eq)
  have r: "0 \<le> score ra \<and> score ra \<le> 95" by (rule repo_score_range_any [OF assms(1)])
  have a: "0 \<le> score aa \<and> score aa \<le> 100" by (rule activity_score_range [OF assms(2)])
  from m p r a show ?thesis by simp
qed

theorem composite_total_witness:
  "\<exists>out. main_after_fetch sample_clock sample_data = Inr out
         \<and> out ! 3 = Meter (25 + 70 + 60) 300 ''OVERALL GITHUB STRENGTH''"
proof -
  have "score (analyze_profile_completeness (user sample_data)) = 25"
    by code_simp
  then show ?thesis
    using composite_total [OF sample_repo_analysis sample_activity_analysis] by simp
qed

subsection \<open>Clock readings\<close>

lemma recent_repos_of_readings:
  assumes "\<forall>i < length rs. clk (k + i) = clk' (k + i)"
  shows "recent_repos_of clk k acc rs = recent_repos_of clk' k acc rs"
  using assms
proof (induction rs arbitrary: k acc)
  case Nil
  show ?case by simp
next
  case (Cons r rs)
  have h: "clk k = clk' k" using Cons.prems by force
  have "\<forall>i < length rs. clk (Suc k + i) = clk' (Suc k + i)"
  proof (intro allI impI)
    fix i
    assume "i < length rs"
    then have "Suc i < length (r # rs)" by simp
    with Cons.prems have "clk (k + Suc i) = clk' (k + Suc i)" by blast
    then show "clk (Suc k + i) = clk' (Suc k + i)" by simp
  qed
  from Cons.IH [OF this] show ?case by (simp add: h split: option.splits)
qed

lemma repository_quality_readings:
  assumes "\<forall>i < length rs. clk (k + i) = clk' (k + i)"
  shows "analyze_repository_quality clk k rs = analyze_repository_quality clk' k rs"
  by (simp add: analyze_repository_quality_def recent_repos_of_readings [OF assms])

lemma activity_readings:
  assumes "clk k = clk' k"
  shows "analyze_activity_consistency clk k es = analyze_activity_consistency clk' k es"
  unfolding analyze_activity_consistency_def assms by (rule refl)

lemma repository_quality_reads:
  assumes "analyze_repository_quality clk k rs = Inr (res, k')"
  shows "k' = k + length rs"
proof (cases "rs = []")
  case True
  with assms show ?thesis by (simp add: analyze_repository_quality_def)
next
  case False
  have p: "parseable rs" using assms repo_quality_unparseable [of rs clk k] by auto
  from repo_quality_nonempty [OF False p, of clk k] assms show ?thesis by simp
qed

lemma activity_reads:
  assumes "analyze_activity_consistency clk k es = Inr (res, k')"
  shows "k' = k + (if es = [] then 0 else 1)"
  using assms
  by (cases es)
     (auto simp add: analyze_activity_consistency_def Let_def case_prod_unfold
           split: option.splits)

text \<open>
  Claim C6, as the code has it. The evaluation time is not captured once: the
  repository check reads the clock once for every repository record and the activity
  check reads it once more when there is an event. The result of a run is determined by
  the inputs and these readings (the first \<open>length repos + 1\<close> of the run), so two checks
  agree on the time only as far as the clock stood still between them.
\<close>

theorem clock_readings:
  "(analyze_repository_quality clk k rs = Inr (res, k') \<longrightarrow> k' = k + length rs)
   \<and> (analyze_activity_consistency clk k es = Inr (res, k')
        \<longrightarrow> k' = k + (if es = [] then 0 else 1))
   \<and> ((\<forall>i \<le> length (repos data). clk i = clk' i)
        \<longrightarrow> main_after_fetch clk data = main_after_fetch clk' data)"
proof (intro conjI impI)
  assume "analyze_repository_quality clk k rs = Inr (res, k')"
  then show "k' = k + length rs" by (rule repository_quality_reads)
next
  assume "analyze_activity_consistency clk k es = Inr (res, k')"
  then show "k' = k + (if es = [] then 0 else 1)" by (rule activity_reads)
next
  assume h: "\<forall>i \<le> length (repos data). clk i = clk' i"
  then have "\<forall>i < length (repos data). clk (0 + i) = clk' (0 + i)" by simp
  then have r: "analyze_repository_quality clk 0 (repos data)
                = analyze_repository_quality clk' 0 (repos data)"
    by (rule repository_quality_readings)
  show "main_after_fetch clk data = main_after_fetch clk' data"
  proof (cases "analyze_repository_quality clk 0 (repos data)")
    case (Inl e)
    have r': "analyze_repository_quality clk' 0 (repos data) = Inl e"
      using r Inl by simp
    show ?thesis by (simp only: main_after_fetch_def Inl r' sum.case)
  next
    case (Inr p)
    obtain ra k1 where p: "p = (ra, k1)" by (cases p)
    have r1: "analyze_repository_quality clk 0 (repos data) = Inr (ra, k1)"
      using Inr unfolding p .
    have r': "analyze_repository_quality clk' 0 (repos data) = Inr (ra, k1)"
      using r r1 by simp
    have "k1 = 0 + length (repos data)"
      using r1 by (rule repository_quality_reads)
    then have "clk k1 = clk' k1" using h by simp
    then have a: "analyze_activity_consistency clk k1 (events data)
                  = analyze_activity_consistency clk' k1 (events data)"
      by (rule activity_readings)
    show ?thesis by (simp only: main_after_fetch_def r1 r' sum.case prod.case a)
  qed
qed

theorem clock_readings_witness:
  "main_after_fetch sample_clock sample_data = main_after_fetch late_clock sample_data
   \<and> sample_clock 2 \<noteq> late_clock 2"
proof -
  have "\<forall>i \<le> length (repos sample_data). sample_clock i = late_clock i"
    by (simp add: sample_data_def sample_clock_def late_clock_def)
  with clock_readings [of sample_clock 0 "[]" _ 0 "[]" sample_data late_clock]
  have "main_after_fetch sample_clock sample_data = main_after_fetch late_clock sample_data"
    by blast
  then show ?thesis by (simp add: sample_clock_def late_clock_def)
qed

text \<open>
  The claim as stated fails: a clock that stands still at the first reading and the sample
  clock, which has advanced by one microsecond at the second reading, share the first
  reading and give different reports for the same account (the newest event is 7 days old
  for the one and 8 for the other).
\<close>

theorem single_clock_reading_counterexample:
  "frozen_clock 0 = sample_clock 0
   \<and> main_after_fetch frozen_clock skew_data \<noteq> main_after_fetch sample_clock skew_data"
  by code_simp

end
